theory Spec2Isabelle
  imports Complex_Main
begin

section \<open>Data model (models.py)\<close>

text \<open>
  Python floats are modelled as real numbers: arithmetic is exact, and rounding, NaN and
  the infinities are outside the model. The one infinity the program produces on purpose,
  the \<open>float('inf')\<close> sentinel of the profit factor, is a constructor of its own.
  Python integers are \<open>int\<close>, timestamps are seconds as \<open>int\<close>, and the
  \<open>Literal\<close> fields of the inputs, which pydantic restricts to the listed strings, are
  datatypes. Field names are the source's, except where two classes share a name or the
  name is reserved: \<open>open\<close> is \<open>open_price\<close>, \<open>Trade.timestamp\<close> is \<open>trade_timestamp\<close>,
  \<open>Trade.notes\<close> is \<open>trade_notes\<close>, \<open>MarketContext.symbol\<close> is \<open>context_symbol\<close> and
  \<open>TradeEvaluation.trade_id\<close> is \<open>evaluation_trade_id\<close>.
\<close>

datatype side = Buy | Sell

datatype trend = Bullish | Bearish | Neutral

datatype py_error = ZeroDivisionError | IndexError

record OHLCV =
  timestamp :: int
  open_price :: real
  high :: real
  low :: real
  close :: real
  volume :: real

record Trade =
  trade_id :: string
  trade_timestamp :: int
  symbol :: string
  side :: side
  entry_price :: real
  exit_price :: "real option"
  exit_timestamp :: "int option"
  quantity :: real
  stop_loss :: "real option"
  take_profit :: "real option"
  pnl :: "real option"
  trade_notes :: "string option"

record MarketContext =
  context_symbol :: string
  start_date :: int
  end_date :: int
  trend :: trend
  trend_strength :: real
  volatility :: real
  support_levels :: "real list"
  resistance_levels :: "real list"
  average_volume :: real

record TradeEvaluation =
  evaluation_trade_id :: string
  entry_quality :: string
  exit_quality :: "string option"
  risk_reward_ratio :: "real option"
  aligned_with_trend :: bool
  execution_discipline :: string
  key_observations :: "string list"

section \<open>Market analysis (market_analysis/__init__.py)\<close>

text \<open>\<open>np.mean\<close> of a non-empty array; every call in the program is guarded.\<close>

definition np_mean :: "real list \<Rightarrow> real" where
  "np_mean xs = sum_list xs / real (length xs)"

text \<open>\<open>np.arange(n)\<close>: the positions 0, 1, ..., n - 1.\<close>

definition arange :: "nat \<Rightarrow> real list" where
  "arange n = map real [0..<n]"

text \<open>
  \<open>np.polyfit(x, y, 1)\<close> belongs to numpy, not to the repository. Its documentation
  makes it the least-squares fit of a line; the first coefficient returned is the slope,
  which for at least two distinct abscissae is the closed form below (that this closed
  form minimises the squared residuals is proved further down).
\<close>

definition polyfit_slope :: "real list \<Rightarrow> real list \<Rightarrow> real" where
  "polyfit_slope x y =
     (real (length x) * sum_list (map (\<lambda>(xi, yi). xi * yi) (zip x y)) - sum_list x * sum_list y)
       / (real (length x) * sum_list (map (\<lambda>xi. xi * xi) x) - sum_list x * sum_list x)"

definition calculate_trend :: "OHLCV list \<Rightarrow> trend \<times> real" where
  "calculate_trend ohlcv_data =
     (if length ohlcv_data < 2 then (Neutral, 0)
      else
        let closes = map close ohlcv_data;
            x = arange (length closes);
            slope = polyfit_slope x closes;
            y_pred = map (\<lambda>xi. slope * xi + np_mean closes) x;
            ss_res = sum_list (map (\<lambda>(c, p). (c - p)\<^sup>2) (zip closes y_pred));
            ss_tot = sum_list (map (\<lambda>c. (c - np_mean closes)\<^sup>2) closes);
            r_squared = (if ss_tot > 0 then 1 - ss_res / ss_tot else 0);
            avg_price = np_mean closes;
            normalized_slope = (if avg_price > 0 then slope / avg_price else 0);
            threshold = 1 / 1000;
            trend = (if normalized_slope > threshold then Bullish
                     else if normalized_slope < - threshold then Bearish
                     else Neutral);
            strength = max 0 (min 1 r_squared)
        in (trend, strength))"

text \<open>The loop of \<open>calculate_volatility\<close>: one true range per candle after the first.\<close>

fun true_ranges :: "OHLCV list \<Rightarrow> real list" where
  "true_ranges (prev # cur # rest) =
     max (max (high cur - low cur) \<bar>high cur - close prev\<bar>) \<bar>low cur - close prev\<bar>
       # true_ranges (cur # rest)"
| "true_ranges _ = []"

definition calculate_volatility :: "OHLCV list \<Rightarrow> real" where
  "calculate_volatility ohlcv_data =
     (if length ohlcv_data < 2 then 0
      else let trs = true_ranges ohlcv_data
           in if trs \<noteq> [] then np_mean trs else 0)"

text \<open>
  \<open>xs[:k]\<close> of Python: the first \<open>k\<close> elements, and for a negative \<open>k\<close> everything but the
  last \<open>-k\<close> elements.
\<close>

definition py_slice_to :: "'a list \<Rightarrow> int \<Rightarrow> 'a list" where
  "py_slice_to xs k =
     (if 0 \<le> k then take (nat k) xs else take (length xs - nat (- k)) xs)"

text \<open>
  The loop of \<open>_cluster_levels\<close> over \<open>levels[1:]\<close>, with the two lists it updates.
  \<open>current_cluster[-1]\<close> raises IndexError on an empty list, and the division of two
  Python floats raises ZeroDivisionError when the last member of the cluster is 0.
\<close>

fun cluster_loop :: "real list \<Rightarrow> real list \<Rightarrow> real list \<Rightarrow> py_error + (real list \<times> real list)" where
  "cluster_loop [] clusters current_cluster = Inr (clusters, current_cluster)"
| "cluster_loop (level # rest) clusters current_cluster =
     (if current_cluster = [] then Inl IndexError
      else if last current_cluster = 0 then Inl ZeroDivisionError
      else if \<bar>level - last current_cluster\<bar> / last current_cluster < 1 / 100
           then cluster_loop rest clusters (current_cluster @ [level])
      else cluster_loop rest (clusters @ [np_mean current_cluster]) [level])"

definition cluster_levels :: "real list \<Rightarrow> int \<Rightarrow> py_error + real list" where
  "cluster_levels levels num_clusters =
     (if levels = [] then Inr []
      else
        let levels = sort levels
        in if int (length levels) \<le> num_clusters then Inr levels
           else
             (case cluster_loop (tl levels) [] [hd levels] of
                Inl e \<Rightarrow> Inl e
              | Inr (clusters, current_cluster) \<Rightarrow>
                  (let clusters = (if current_cluster \<noteq> []
                                   then clusters @ [np_mean current_cluster] else clusters)
                   in Inr (py_slice_to (sort clusters) num_clusters))))"

section \<open>Trade evaluation (trade_evaluation/__init__.py)\<close>

text \<open>
  The generator handed to \<open>any\<close> in \<open>evaluate_entry_quality\<close>: levels are visited in
  order, a level equal to 0 raises at the division, and the first level within 1% ends
  the walk.
\<close>

fun any_near :: "real \<Rightarrow> real list \<Rightarrow> py_error + bool" where
  "any_near price [] = Inr False"
| "any_near price (level # rest) =
     (if level = 0 then Inl ZeroDivisionError
      else if \<bar>price - level\<bar> / level < 1 / 100 then Inr True
      else any_near price rest)"

definition evaluate_entry_quality :: "Trade \<Rightarrow> MarketContext \<Rightarrow> py_error + string" where
  "evaluate_entry_quality trade market_context =
     (let score = (0::int);
          score = (if trend market_context = Bullish \<and> side trade = Buy then score + 2
                   else if trend market_context = Bearish \<and> side trade = Sell then score + 2
                   else if trend market_context = Neutral then score + 1
                   else score - 1)
      in case (if side trade = Buy
               then any_near (entry_price trade) (support_levels market_context)
               else any_near (entry_price trade) (resistance_levels market_context)) of
           Inl e \<Rightarrow> Inl e
         | Inr near \<Rightarrow>
             (let score = (if near then score + 2 else score)
              in Inr (if score \<ge> 3 then ''good''
                      else if score \<ge> 1 then ''acceptable''
                      else ''poor'')))"

definition calculate_risk_reward :: "Trade \<Rightarrow> real option" where
  "calculate_risk_reward trade =
     (case (stop_loss trade, take_profit trade) of
        (Some sl, Some tp) \<Rightarrow>
          (let (risk, reward) =
                 (if side trade = Buy
                  then (\<bar>entry_price trade - sl\<bar>, \<bar>tp - entry_price trade\<bar>)
                  else (\<bar>sl - entry_price trade\<bar>, \<bar>entry_price trade - tp\<bar>))
           in if risk = 0 then None else Some (reward / risk))
      | _ \<Rightarrow> None)"

section \<open>Aggregation (analyzer.py, utils/__init__.py)\<close>

record PerformanceMetrics =
  total_trades :: int
  closed_trades :: int
  open_trades :: int
  winning_trades :: int
  losing_trades :: int
  win_rate :: real
  total_pnl :: real
  avg_pnl :: real
  trades_with_trend :: int
  trades_against_trend :: int
  high_discipline_trades :: int
  good_entry_trades :: int

text \<open>
  \<open>_calculate_performance_metrics\<close>. The list the source calls \<open>closed_trades\<close> holds
  the trades whose \<open>pnl\<close> is not None, so \<open>the (pnl t)\<close> is only read where it is set.
\<close>

definition calculate_performance_metrics ::
    "Trade list \<Rightarrow> TradeEvaluation list \<Rightarrow> PerformanceMetrics" where
  "calculate_performance_metrics trades evaluations =
     (let total = int (length trades);
          closed = filter (\<lambda>t. pnl t \<noteq> None) trades;
          winning = int (length (filter (\<lambda>t. the (pnl t) > 0) closed));
          losing = int (length (filter (\<lambda>t. the (pnl t) < 0) closed));
          total_pnl_v = sum_list (map (\<lambda>t. the (pnl t)) closed);
          avg_pnl_v = (if closed \<noteq> [] then total_pnl_v / real (length closed) else 0);
          win_rate_v = (if closed \<noteq> []
                        then real_of_int winning / real (length closed) * 100 else 0);
          with_trend = int (length (filter aligned_with_trend evaluations));
          against_trend = total - with_trend;
          high_discipline =
            int (length (filter (\<lambda>e. execution_discipline e = ''high'') evaluations));
          good_entries = int (length (filter (\<lambda>e. entry_quality e = ''good'') evaluations))
      in \<lparr>total_trades = total,
          closed_trades = int (length closed),
          open_trades = total - int (length closed),
          winning_trades = winning,
          losing_trades = losing,
          win_rate = win_rate_v,
          total_pnl = total_pnl_v,
          avg_pnl = avg_pnl_v,
          trades_with_trend = with_trend,
          trades_against_trend = against_trend,
          high_discipline_trades = high_discipline,
          good_entry_trades = good_entries\<rparr>)"

text \<open>A Python float that may be the \<open>float('inf')\<close> sentinel.\<close>

datatype pyfloat = Finite real | Infinity

record AdditionalMetrics =
  max_drawdown :: real
  avg_win :: real
  avg_loss :: real
  profit_factor :: pyfloat
  largest_win :: real
  largest_loss :: real

text \<open>\<open>max\<close> of a non-empty Python list.\<close>

definition py_max :: "real list \<Rightarrow> real" where
  "py_max xs = fold max (tl xs) (hd xs)"

text \<open>The drawdown loop, on the triple (cumulative_pnl, peak, max_dd).\<close>

fun drawdown_loop :: "Trade list \<Rightarrow> real \<times> real \<times> real \<Rightarrow> real \<times> real \<times> real" where
  "drawdown_loop [] st = st"
| "drawdown_loop (trade # rest) (cumulative_pnl, peak, max_dd) =
     (let cumulative_pnl = cumulative_pnl + the (pnl trade);
          peak = (if cumulative_pnl > peak then cumulative_pnl else peak);
          drawdown = peak - cumulative_pnl;
          max_dd = (if drawdown > max_dd then drawdown else max_dd)
      in drawdown_loop rest (cumulative_pnl, peak, max_dd))"

definition calculate_additional_metrics :: "Trade list \<Rightarrow> AdditionalMetrics" where
  "calculate_additional_metrics trades =
     (let closed = filter (\<lambda>t. pnl t \<noteq> None) trades
      in if closed = [] then
           \<lparr>max_drawdown = 0, avg_win = 0, avg_loss = 0, profit_factor = Finite 0,
            largest_win = 0, largest_loss = 0\<rparr>
         else
           let wins = map (\<lambda>t. the (pnl t)) (filter (\<lambda>t. the (pnl t) > 0) closed);
               losses = map (\<lambda>t. \<bar>the (pnl t)\<bar>) (filter (\<lambda>t. the (pnl t) < 0) closed);
               avg_win_v = (if wins \<noteq> [] then sum_list wins / real (length wins) else 0);
               avg_loss_v = (if losses \<noteq> [] then sum_list losses / real (length losses) else 0);
               total_wins = sum_list wins;
               total_losses = sum_list losses;
               profit_factor_v = (if total_losses > 0 then Finite (total_wins / total_losses)
                                  else Infinity);
               largest_win_v = (if wins \<noteq> [] then py_max wins else 0);
               largest_loss_v = (if losses \<noteq> [] then py_max losses else 0);
               (cumulative_pnl, peak, max_dd) = drawdown_loop closed (0, 0, 0)
           in \<lparr>max_drawdown = max_dd, avg_win = avg_win_v, avg_loss = avg_loss_v,
               profit_factor = profit_factor_v,
               largest_win = largest_win_v, largest_loss = largest_loss_v\<rparr>)"

section \<open>Notions of the specification and sample inputs\<close>

text \<open>
  A trade is closed when its exit price is present: the test of \<open>evaluate_exit_quality\<close>
  (\<open>trade.exit_price is None\<close> means still open), which is also the sense of the data
  model.
\<close>

definition trade_is_closed :: "Trade \<Rightarrow> bool" where
  "trade_is_closed trade = (exit_price trade \<noteq> None)"

text \<open>No trade of the list has a negative realized P&L.\<close>

definition no_losing_trade :: "Trade list \<Rightarrow> bool" where
  "no_losing_trade trades =
     list_all (\<lambda>t. case pnl t of None \<Rightarrow> True | Some p \<Rightarrow> \<not> p < 0) trades"

definition example_open_trade :: Trade where
  "example_open_trade =
     \<lparr>trade_id = ''T1'', trade_timestamp = 0, symbol = ''AAPL'', side = Buy,
      entry_price = 100, exit_price = None, exit_timestamp = None, quantity = 1,
      stop_loss = Some 90, take_profit = Some 120, pnl = None, trade_notes = None\<rparr>"

definition example_context :: MarketContext where
  "example_context =
     \<lparr>context_symbol = ''AAPL'', start_date = 0, end_date = 86400, trend = Bullish,
      trend_strength = 0, volatility = 2, support_levels = [99.5, 105],
      resistance_levels = [120], average_volume = 1000\<rparr>"

text \<open>A candle of a given close, for sample windows.\<close>

definition candle :: "real \<Rightarrow> OHLCV" where
  "candle c = \<lparr>timestamp = 0, open_price = c, high = c, low = c, close = c, volume = 1\<rparr>"

text \<open>
  The strength as the specification words it: the residuals of the closes against the
  line slope * x + mean(close), with the least-squares slope of close against the 0-based
  index, over the squared deviations of the closes from their mean, clamped to [0, 1].
\<close>

definition spec_ss_res :: "real list \<Rightarrow> real" where
  "spec_ss_res closes =
     (\<Sum>i\<leftarrow>[0..<length closes].
        (closes ! i - (polyfit_slope (arange (length closes)) closes * real i + np_mean closes))\<^sup>2)"

definition spec_ss_tot :: "real list \<Rightarrow> real" where
  "spec_ss_tot closes = (\<Sum>i\<leftarrow>[0..<length closes]. (closes ! i - np_mean closes)\<^sup>2)"

definition spec_strength :: "real list \<Rightarrow> real" where
  "spec_strength closes = max 0 (min 1 (1 - spec_ss_res closes / spec_ss_tot closes))"

text \<open>The numerator of the least-squares slope.\<close>

definition fit_numerator :: "real list \<Rightarrow> real list \<Rightarrow> real" where
  "fit_numerator x y =
     real (length x) * sum_list (map (\<lambda>(xi, yi). xi * yi) (zip x y)) - sum_list x * sum_list y"

text \<open>
  The clustering as the specification words it: along the sorted list a new cluster starts
  exactly when the next value differs from the one before it (the last member of the
  current cluster) by at least 1% relative to that member, that is when the distance
  between the two is at least one hundredth of the size of that member; the result keeps
  the \<open>num_levels\<close> lowest cluster means, in ascending order.
\<close>

fun spec_groups :: "real list \<Rightarrow> real list list" where
  "spec_groups [] = []"
| "spec_groups [x] = [[x]]"
| "spec_groups (x # y # rest) =
     (if \<bar>y - x\<bar> \<ge> 1 / 100 * \<bar>x\<bar> then [x] # spec_groups (y # rest)
      else (case spec_groups (y # rest) of
              g # gs \<Rightarrow> (x # g) # gs
            | [] \<Rightarrow> [[x]]))"

definition spec_cluster_levels :: "real list \<Rightarrow> int \<Rightarrow> real list" where
  "spec_cluster_levels levels num_levels =
     (if int (length levels) \<le> num_levels then sort levels
      else take (nat num_levels) (sort (map np_mean (spec_groups (sort levels)))))"

text \<open>The groups of a list whose first member continues a cluster already begun.\<close>

definition merge_head :: "real list \<Rightarrow> real list list \<Rightarrow> real list list" where
  "merge_head current groups = (butlast current @ hd groups) # tl groups"

section \<open>Degenerate windows\<close>

text \<open>
  C8. For every candle list of length less than 2, \<open>calculate_trend\<close> returns
  (neutral, 0.0) and \<open>calculate_volatility\<close> returns 0.0.
\<close>

theorem short_window_neutral_and_calm:
  "length ohlcv_data < 2 \<Longrightarrow>
     calculate_trend ohlcv_data = (Neutral, 0) \<and> calculate_volatility ohlcv_data = 0"
  by (simp add: calculate_trend_def calculate_volatility_def)

theorem short_window_neutral_and_calm_witness:
  "length [\<lparr>timestamp = 0, open_price = 10, high = 12, low = 9, close = 11, volume = 5\<rparr>] < 2
   \<and> calculate_trend [\<lparr>timestamp = 0, open_price = 10, high = 12, low = 9, close = 11, volume = 5\<rparr>]
       = (Neutral, 0)
   \<and> calculate_volatility
         [\<lparr>timestamp = 0, open_price = 10, high = 12, low = 9, close = 11, volume = 5\<rparr>] = 0"
  using short_window_neutral_and_calm
    [of "[\<lparr>timestamp = 0, open_price = 10, high = 12, low = 9, close = 11, volume = 5\<rparr>]"]
  by simp

section \<open>Entry quality\<close>

lemma any_near_total:
  "\<forall>level \<in> set levels. level \<noteq> 0 \<Longrightarrow> \<exists>b. any_near price levels = Inr b"
  by (induction levels) auto

text \<open>
  C10. For every trade and market context in which every support level and every
  resistance level is nonzero, \<open>evaluate_entry_quality\<close> is total (no division raises)
  and returns one of good, acceptable, poor.
\<close>

theorem entry_quality_total:
  assumes "\<forall>level \<in> set (support_levels market_context). level \<noteq> 0"
      and "\<forall>level \<in> set (resistance_levels market_context). level \<noteq> 0"
  shows "\<exists>q. evaluate_entry_quality trade market_context = Inr q
              \<and> q \<in> {''good'', ''acceptable'', ''poor''}"
proof -
  obtain b where b:
    "(if side trade = Buy
      then any_near (entry_price trade) (support_levels market_context)
      else any_near (entry_price trade) (resistance_levels market_context)) = Inr b"
    using any_near_total [OF assms(1), of "entry_price trade"]
          any_near_total [OF assms(2), of "entry_price trade"]
    by (cases "side trade = Buy") auto
  show ?thesis
    unfolding evaluate_entry_quality_def Let_def b by simp
qed

theorem entry_quality_total_witness:
  "support_levels example_context = [99.5, 105]
   \<and> resistance_levels example_context = [120]
   \<and> evaluate_entry_quality example_open_trade example_context = Inr ''good''"
proof -
  have s: "\<forall>level \<in> set (support_levels example_context). level \<noteq> 0"
    by (simp add: example_context_def)
  have r: "\<forall>level \<in> set (resistance_levels example_context). level \<noteq> 0"
    by (simp add: example_context_def)
  have v: "evaluate_entry_quality example_open_trade example_context = Inr ''good''"
    by (simp add: evaluate_entry_quality_def example_open_trade_def example_context_def)
  have l: "support_levels example_context = [99.5, 105]
           \<and> resistance_levels example_context = [120]"
    by (simp add: example_context_def)
  from entry_quality_total [OF s r, of example_open_trade] l v show ?thesis by blast
qed

text \<open>
  Outside the precondition the division does raise: a buy trade against a context whose
  first support level is 0.
\<close>

lemma entry_quality_zero_level_raises:
  "evaluate_entry_quality example_open_trade (example_context\<lparr>support_levels := [0, 99.5]\<rparr>)
     = Inl ZeroDivisionError"
  by (simp add: evaluate_entry_quality_def example_open_trade_def example_context_def)

section \<open>Risk-reward ratio\<close>

text \<open>
  C5, as the specification states it: whenever \<open>calculate_risk_reward\<close> returns a value,
  the value is strictly greater than 0. A take-profit equal to the entry price gives a
  reward of 0 and the value 0.
\<close>

theorem risk_reward_zero_counterexample:
  "calculate_risk_reward (example_open_trade\<lparr>take_profit := Some 100\<rparr>) = Some 0
   \<and> \<not> 0 < the (calculate_risk_reward (example_open_trade\<lparr>take_profit := Some 100\<rparr>))"
  by (simp add: calculate_risk_reward_def example_open_trade_def)

text \<open>
  C5, amended: whenever \<open>calculate_risk_reward\<close> returns a value, the value is at least 0,
  and it is strictly greater than 0 exactly when the take-profit differs from the entry
  price.
\<close>

theorem risk_reward_nonneg:
  "calculate_risk_reward trade = Some v \<Longrightarrow>
     0 \<le> v \<and> (0 < v \<longleftrightarrow> take_profit trade \<noteq> Some (entry_price trade))"
  by (auto simp: calculate_risk_reward_def Let_def split: option.splits if_splits)

theorem risk_reward_nonneg_witness:
  "calculate_risk_reward example_open_trade = Some 2
   \<and> 0 \<le> (2::real)
   \<and> (0 < (2::real) \<longleftrightarrow> take_profit example_open_trade \<noteq> Some (entry_price example_open_trade))"
proof -
  have v: "calculate_risk_reward example_open_trade = Some 2"
    by (simp add: calculate_risk_reward_def example_open_trade_def)
  from risk_reward_nonneg [OF v] v show ?thesis by blast
qed

text \<open>
  C6. \<open>calculate_risk_reward\<close> returns a value if and only if both stop-loss and
  take-profit are present and the risk |entry - stop| is nonzero; the value is then
  |target - entry| / |entry - stop|, for either side; a buy trade with entry 100, stop 90
  and target 120 yields exactly 2.
\<close>

theorem risk_reward_defined_iff:
  "((\<exists>v. calculate_risk_reward trade = Some v) \<longleftrightarrow>
      (\<exists>sl tp. stop_loss trade = Some sl \<and> take_profit trade = Some tp
                \<and> \<bar>entry_price trade - sl\<bar> \<noteq> 0))
   \<and> (\<forall>sl tp. stop_loss trade = Some sl \<longrightarrow> take_profit trade = Some tp
          \<longrightarrow> \<bar>entry_price trade - sl\<bar> \<noteq> 0
          \<longrightarrow> calculate_risk_reward trade
                = Some (\<bar>tp - entry_price trade\<bar> / \<bar>entry_price trade - sl\<bar>))
   \<and> calculate_risk_reward
        (trade\<lparr>side := Buy, entry_price := 100, stop_loss := Some 90, take_profit := Some 120\<rparr>)
       = Some 2"
  by (auto simp: calculate_risk_reward_def Let_def abs_minus_commute
           split: option.splits if_splits)

theorem risk_reward_defined_iff_witness:
  "stop_loss (example_open_trade\<lparr>side := Sell, stop_loss := Some 104, take_profit := Some 88\<rparr>)
     = Some 104
   \<and> take_profit (example_open_trade\<lparr>side := Sell, stop_loss := Some 104, take_profit := Some 88\<rparr>)
     = Some 88
   \<and> \<bar>entry_price (example_open_trade\<lparr>side := Sell, stop_loss := Some 104, take_profit := Some 88\<rparr>)
        - 104\<bar> \<noteq> 0
   \<and> calculate_risk_reward
        (example_open_trade\<lparr>side := Sell, stop_loss := Some 104, take_profit := Some 88\<rparr>)
       = Some 3"
  using risk_reward_defined_iff
    [of "example_open_trade\<lparr>side := Sell, stop_loss := Some 104, take_profit := Some 88\<rparr>"]
  by (simp add: example_open_trade_def)

section \<open>Performance metrics\<close>

lemma filter_sign_partition:
  fixes f :: "'a \<Rightarrow> real"
  shows "length (filter (\<lambda>t. f t > 0) xs) + length (filter (\<lambda>t. f t < 0) xs)
           + length (filter (\<lambda>t. f t = 0) xs) = length xs"
  by (induction xs) auto

lemma filter_length_pos_iff:
  "0 < length (filter P xs) \<longleftrightarrow> (\<exists>x \<in> set xs. P x)"
  by (induction xs) auto

lemma closed_zero_iff:
  "(\<exists>t \<in> set (filter (\<lambda>t. pnl t \<noteq> None) trades). the (pnl t) = 0)
     \<longleftrightarrow> (\<exists>t \<in> set trades. pnl t = Some 0)"
  by auto

lemma metrics_fields:
  "winning_trades (calculate_performance_metrics trades evs)
     = int (length (filter (\<lambda>t. the (pnl t) > 0) (filter (\<lambda>t. pnl t \<noteq> None) trades)))"
  "losing_trades (calculate_performance_metrics trades evs)
     = int (length (filter (\<lambda>t. the (pnl t) < 0) (filter (\<lambda>t. pnl t \<noteq> None) trades)))"
  "closed_trades (calculate_performance_metrics trades evs)
     = int (length (filter (\<lambda>t. pnl t \<noteq> None) trades))"
  "open_trades (calculate_performance_metrics trades evs)
     = int (length trades) - int (length (filter (\<lambda>t. pnl t \<noteq> None) trades))"
  "total_trades (calculate_performance_metrics trades evs) = int (length trades)"
  "win_rate (calculate_performance_metrics trades evs)
     = (if filter (\<lambda>t. pnl t \<noteq> None) trades \<noteq> []
        then real_of_int (int (length (filter (\<lambda>t. the (pnl t) > 0)
                                        (filter (\<lambda>t. pnl t \<noteq> None) trades))))
               / real (length (filter (\<lambda>t. pnl t \<noteq> None) trades)) * 100
        else 0)"
  by (simp_all add: calculate_performance_metrics_def Let_def)

text \<open>
  C9. The aggregator's winning_trades plus losing_trades is at most closed_trades, with
  strict inequality exactly when some trade has a realized P&L equal to zero; the win rate
  divides the wins by all the trades counted as closed, so adding a break-even trade to a
  list that has a win leaves the win and loss counts alone and lowers the win rate.
\<close>

theorem wins_losses_breakeven:
  "winning_trades (calculate_performance_metrics trades evs)
     + losing_trades (calculate_performance_metrics trades evs)
       \<le> closed_trades (calculate_performance_metrics trades evs)
   \<and> (winning_trades (calculate_performance_metrics trades evs)
        + losing_trades (calculate_performance_metrics trades evs)
          < closed_trades (calculate_performance_metrics trades evs)
        \<longleftrightarrow> (\<exists>t \<in> set trades. pnl t = Some 0))
   \<and> win_rate (calculate_performance_metrics trades evs)
       = (if closed_trades (calculate_performance_metrics trades evs) = 0 then 0
          else real_of_int (winning_trades (calculate_performance_metrics trades evs))
                 / real_of_int (closed_trades (calculate_performance_metrics trades evs)) * 100)
   \<and> (\<forall>t evs'. pnl t = Some 0
          \<longrightarrow> 0 < winning_trades (calculate_performance_metrics trades evs)
          \<longrightarrow> winning_trades (calculate_performance_metrics (trades @ [t]) evs')
                = winning_trades (calculate_performance_metrics trades evs)
              \<and> losing_trades (calculate_performance_metrics (trades @ [t]) evs')
                = losing_trades (calculate_performance_metrics trades evs)
              \<and> win_rate (calculate_performance_metrics (trades @ [t]) evs')
                < win_rate (calculate_performance_metrics trades evs))"
proof -
  define closed where "closed = filter (\<lambda>t. pnl t \<noteq> None) trades"
  define w where "w = length (filter (\<lambda>t. the (pnl t) > 0) closed)"
  define l where "l = length (filter (\<lambda>t. the (pnl t) < 0) closed)"
  define z where "z = length (filter (\<lambda>t. the (pnl t) = 0) closed)"
  have part: "w + l + z = length closed"
    unfolding w_def l_def z_def by (rule filter_sign_partition)
  have z_iff: "0 < z \<longleftrightarrow> (\<exists>t \<in> set trades. pnl t = Some 0)"
    unfolding z_def filter_length_pos_iff closed_def by (rule closed_zero_iff)
  have W: "winning_trades (calculate_performance_metrics trades evs) = int w"
    and L: "losing_trades (calculate_performance_metrics trades evs) = int l"
    and C: "closed_trades (calculate_performance_metrics trades evs) = int (length closed)"
    by (simp_all add: metrics_fields w_def l_def closed_def)
  have R: "win_rate (calculate_performance_metrics trades evs)
             = (if closed \<noteq> [] then real w / real (length closed) * 100 else 0)"
    by (simp add: metrics_fields w_def closed_def)
  have c1: "int w + int l \<le> int (length closed)" using part by linarith
  have c2: "int w + int l < int (length closed) \<longleftrightarrow> (\<exists>t \<in> set trades. pnl t = Some 0)"
    using part z_iff by linarith
  have c3: "win_rate (calculate_performance_metrics trades evs)
       = (if int (length closed) = 0 then 0
          else real_of_int (int w) / real_of_int (int (length closed)) * 100)"
    unfolding R by simp
  have c4: "winning_trades (calculate_performance_metrics (trades @ [t]) evs') = int w
          \<and> losing_trades (calculate_performance_metrics (trades @ [t]) evs') = int l
          \<and> win_rate (calculate_performance_metrics (trades @ [t]) evs')
              < win_rate (calculate_performance_metrics trades evs)"
    if t: "pnl t = Some 0" and pos: "0 < int w" for t evs'
  proof -
    have ne: "closed \<noteq> []" using pos part by auto
    have n: "0 < length closed" using ne by simp
    have lt: "real w / (real (length closed) + 1) < real w / real (length closed)"
      using pos n by (simp add: frac_less2)
    have W': "winning_trades (calculate_performance_metrics (trades @ [t]) evs') = int w"
      using t by (simp add: metrics_fields w_def closed_def)
    have L': "losing_trades (calculate_performance_metrics (trades @ [t]) evs') = int l"
      using t by (simp add: metrics_fields l_def closed_def)
    have R': "win_rate (calculate_performance_metrics (trades @ [t]) evs')
                = real w / (real (length closed) + 1) * 100"
      using t by (simp add: metrics_fields w_def closed_def add.commute)
    have R0: "win_rate (calculate_performance_metrics trades evs)
                = real w / real (length closed) * 100"
      using ne by (simp add: R)
    show ?thesis
      unfolding W' L' R' R0 using mult_strict_right_mono [OF lt, of 100] by simp
  qed
  show ?thesis
    unfolding W L C using c1 c2 c3 c4 by blast
qed

theorem wins_losses_breakeven_witness:
  "pnl (example_open_trade\<lparr>exit_price := Some 100, pnl := Some 0\<rparr>) = Some 0
   \<and> 0 < winning_trades
           (calculate_performance_metrics
              [example_open_trade\<lparr>exit_price := Some 150, pnl := Some 50\<rparr>] [])
   \<and> win_rate
         (calculate_performance_metrics
            ([example_open_trade\<lparr>exit_price := Some 150, pnl := Some 50\<rparr>]
               @ [example_open_trade\<lparr>exit_price := Some 100, pnl := Some 0\<rparr>]) [])
       < win_rate
           (calculate_performance_metrics
              [example_open_trade\<lparr>exit_price := Some 150, pnl := Some 50\<rparr>] [])"
proof -
  have z: "pnl (example_open_trade\<lparr>exit_price := Some 100, pnl := Some 0\<rparr>) = Some 0"
    by simp
  have w: "0 < winning_trades
                 (calculate_performance_metrics
                    [example_open_trade\<lparr>exit_price := Some 150, pnl := Some 50\<rparr>] [])"
    by (simp add: calculate_performance_metrics_def)
  from wins_losses_breakeven
         [of "[example_open_trade\<lparr>exit_price := Some 150, pnl := Some 50\<rparr>]" "[]"] z w
  show ?thesis by blast
qed

text \<open>
  C3, evaluated on one trade that has an exit price and no recorded P&L (a row of the
  trade log with the \<open>exit_price\<close> column filled and the \<open>pnl\<close> column empty): the trade is
  closed in the sense of the data model, and the aggregator reports no closed trade and
  one open trade.
\<close>

theorem closed_count_ignores_exit_price:
  "closed_trades
     (calculate_performance_metrics [example_open_trade\<lparr>exit_price := Some 110\<rparr>] []) = 0
   \<and> open_trades
       (calculate_performance_metrics [example_open_trade\<lparr>exit_price := Some 110\<rparr>] []) = 1
   \<and> int (length (filter trade_is_closed [example_open_trade\<lparr>exit_price := Some 110\<rparr>])) = 1"
  by (simp add: calculate_performance_metrics_def trade_is_closed_def example_open_trade_def)

section \<open>Profit factor\<close>

lemma no_losing_trade_filter:
  "no_losing_trade trades \<Longrightarrow>
     filter (\<lambda>t. the (pnl t) < 0) (filter (\<lambda>t. pnl t \<noteq> None) trades) = []"
  by (induction trades) (auto simp: no_losing_trade_def split: option.splits)

text \<open>
  C4, as the specification states it: every trade list without a losing trade has the
  profit factor +infinity. A list whose trades carry no realized P&L has no losing trade,
  and its profit factor is 0.
\<close>

theorem profit_factor_no_pnl_counterexample:
  "no_losing_trade [example_open_trade]
   \<and> profit_factor (calculate_additional_metrics [example_open_trade]) = Finite 0
   \<and> Finite 0 \<noteq> Infinity"
  by (simp add: no_losing_trade_def example_open_trade_def calculate_additional_metrics_def)

text \<open>
  C4, amended: for every trade list without a losing trade, the profit factor is
  +infinity when at least one trade carries a realized P&L, and 0 when none does; no
  division raises.
\<close>

theorem profit_factor_no_losses:
  assumes "no_losing_trade trades"
  shows "profit_factor (calculate_additional_metrics trades)
           = (if \<exists>t \<in> set trades. pnl t \<noteq> None then Infinity else Finite 0)"
proof (cases "filter (\<lambda>t. pnl t \<noteq> None) trades = []")
  case True
  then have "\<not> (\<exists>t \<in> set trades. pnl t \<noteq> None)"
    by (simp add: filter_empty_conv)
  with True show ?thesis
    by (simp add: calculate_additional_metrics_def)
next
  case False
  then have ex: "\<exists>t \<in> set trades. pnl t \<noteq> None"
    by (simp add: filter_empty_conv)
  show ?thesis
    using False ex no_losing_trade_filter [OF assms]
    by (simp add: calculate_additional_metrics_def Let_def split: prod.splits)
qed

theorem profit_factor_no_losses_witness:
  "no_losing_trade [example_open_trade\<lparr>exit_price := Some 110, pnl := Some 10\<rparr>]
   \<and> profit_factor
       (calculate_additional_metrics [example_open_trade\<lparr>exit_price := Some 110, pnl := Some 10\<rparr>])
      = Infinity"
  using profit_factor_no_losses [of "[example_open_trade\<lparr>exit_price := Some 110, pnl := Some 10\<rparr>]"]
  by (simp add: no_losing_trade_def example_open_trade_def)

section \<open>The least-squares slope\<close>

lemma sum_list_map2_nth:
  "length x = length y \<Longrightarrow>
     sum_list (map (\<lambda>(xi, yi). g xi yi) (zip x y)) = (\<Sum>i<length x. g (x ! i) (y ! i))"
proof -
  assume l: "length x = length y"
  have "map (\<lambda>(xi, yi). g xi yi) (zip x y) = map (\<lambda>i. g (x ! i) (y ! i)) [0..<length x]"
    using l by (intro nth_equalityI) simp_all
  then show ?thesis
    by (simp add: interv_sum_list_conv_sum_set_nat atLeast0LessThan)
qed

lemma sum_list_map_nth_set:
  "sum_list (map f x) = (\<Sum>i<length x. f (x ! i))"
proof -
  have "map f x = map (\<lambda>i. f (x ! i)) [0..<length x]"
    by (intro nth_equalityI) simp_all
  then show ?thesis
    by (simp add: interv_sum_list_conv_sum_set_nat atLeast0LessThan)
qed

text \<open>
  The closed form of \<open>polyfit_slope\<close> is the slope of the least-squares line: with the
  intercept mean(y) - slope * mean(x), no other line has a smaller sum of squared
  residuals.
\<close>

lemma polyfit_slope_least_squares:
  fixes x y :: "real list" and a b :: real
  assumes len: "length x = length y"
      and D: "real (length x) * sum_list (map (\<lambda>xi. xi * xi) x) - sum_list x * sum_list x \<noteq> 0"
  defines "s \<equiv> polyfit_slope x y"
  defines "t \<equiv> np_mean y - s * np_mean x"
  shows "sum_list (map (\<lambda>(xi, yi). (yi - (s * xi + t))\<^sup>2) (zip x y))
           \<le> sum_list (map (\<lambda>(xi, yi). (yi - (a * xi + b))\<^sup>2) (zip x y))"
proof -
  let ?n = "length x"
  define Sx where "Sx = (\<Sum>i<?n. x ! i)"
  define Sy where "Sy = (\<Sum>i<?n. y ! i)"
  define Sxx where "Sxx = (\<Sum>i<?n. x ! i * x ! i)"
  define Sxy where "Sxy = (\<Sum>i<?n. x ! i * y ! i)"
  have n0: "?n \<noteq> 0" using D by auto
  then have n: "0 < real ?n" by simp
  have sx: "sum_list x = Sx" unfolding Sx_def using sum_list_map_nth_set [of "\<lambda>v. v" x] by simp
  have sy: "sum_list y = Sy" unfolding Sy_def using sum_list_map_nth_set [of "\<lambda>v. v" y] len by simp
  have sxx: "sum_list (map (\<lambda>xi. xi * xi) x) = Sxx"
    unfolding Sxx_def by (rule sum_list_map_nth_set)
  have sxy: "sum_list (map (\<lambda>(xi, yi). xi * yi) (zip x y)) = Sxy"
    unfolding Sxy_def by (rule sum_list_map2_nth [OF len])
  have D': "real ?n * Sxx - Sx * Sx \<noteq> 0" using D by (simp add: sx sxx)
  have s_eq: "s * (real ?n * Sxx - Sx * Sx) = real ?n * Sxy - Sx * Sy"
    unfolding s_def polyfit_slope_def sx sy sxx sxy using D' by simp
  have t_eq: "real ?n * t = Sy - s * Sx"
    unfolding t_def np_mean_def sx sy len [symmetric] using n by (simp add: field_simps)
  define r where "r = (\<lambda>i. y ! i - (s * x ! i + t))"
  have r_sum: "(\<Sum>i<?n. r i) = 0"
  proof -
    have "(\<Sum>i<?n. r i) = Sy - s * Sx - real ?n * t"
      unfolding r_def Sx_def Sy_def
      by (simp add: sum_subtractf sum.distrib sum_distrib_left algebra_simps)
    then show ?thesis using t_eq by simp
  qed
  have rx_sum: "(\<Sum>i<?n. r i * x ! i) = 0"
  proof -
    have e: "(\<Sum>i<?n. r i * x ! i) = Sxy - s * Sxx - t * Sx"
      unfolding r_def Sx_def Sxx_def Sxy_def
      by (simp add: sum_subtractf sum.distrib sum_distrib_left algebra_simps)
    have "real ?n * t * Sx = (Sy - s * Sx) * Sx" by (simp only: t_eq)
    then have "real ?n * (Sxy - s * Sxx - t * Sx)
            = (real ?n * Sxy - Sx * Sy) - s * (real ?n * Sxx - Sx * Sx)"
      by (simp add: algebra_simps)
    then have "real ?n * (Sxy - s * Sxx - t * Sx) = 0" using s_eq by simp
    then show ?thesis using n e by simp
  qed
  have split: "(\<Sum>i<?n. (y ! i - (a * x ! i + b))\<^sup>2)
          = (\<Sum>i<?n. (r i)\<^sup>2) + (\<Sum>i<?n. ((s - a) * x ! i + (t - b))\<^sup>2)"
  proof -
    have "(\<Sum>i<?n. (y ! i - (a * x ! i + b))\<^sup>2)
            = (\<Sum>i<?n. (r i)\<^sup>2 + ((s - a) * x ! i + (t - b))\<^sup>2
                       + (2 * (s - a) * (r i * x ! i) + 2 * (t - b) * r i))"
      by (rule sum.cong) (simp_all add: r_def power2_eq_square algebra_simps)
    also have "\<dots> = (\<Sum>i<?n. (r i)\<^sup>2) + (\<Sum>i<?n. ((s - a) * x ! i + (t - b))\<^sup>2)
                     + (2 * (s - a) * (\<Sum>i<?n. r i * x ! i) + 2 * (t - b) * (\<Sum>i<?n. r i))"
      by (simp add: sum.distrib sum_distrib_left)
    finally show ?thesis by (simp add: r_sum rx_sum)
  qed
  have "(\<Sum>i<?n. (r i)\<^sup>2) \<le> (\<Sum>i<?n. (y ! i - (a * x ! i + b))\<^sup>2)"
    unfolding split by (simp add: sum_nonneg)
  moreover have "sum_list (map (\<lambda>(xi, yi). (yi - (s * xi + t))\<^sup>2) (zip x y)) = (\<Sum>i<?n. (r i)\<^sup>2)"
    unfolding r_def by (rule sum_list_map2_nth [OF len])
  moreover have "sum_list (map (\<lambda>(xi, yi). (yi - (a * xi + b))\<^sup>2) (zip x y))
                   = (\<Sum>i<?n. (y ! i - (a * x ! i + b))\<^sup>2)"
    by (rule sum_list_map2_nth [OF len])
  ultimately show ?thesis by simp
qed


section \<open>Trend strength\<close>

lemma sum_list_zip_arange:
  "sum_list (map (\<lambda>(c, p). g c p) (zip ys (map f (arange (length ys)))))
     = (\<Sum>i\<leftarrow>[0..<length ys]. g (ys ! i) (f (real i)))"
proof -
  have "zip ys (map f (arange (length ys))) = map (\<lambda>i. (ys ! i, f (real i))) [0..<length ys]"
    by (rule nth_equalityI) (simp_all add: arange_def)
  then show ?thesis by (simp add: comp_def)
qed

lemma sum_list_map_nth:
  "sum_list (map f ys) = (\<Sum>i\<leftarrow>[0..<length ys]. f (ys ! i))"
proof -
  have "map f ys = map (\<lambda>i. f (ys ! i)) [0..<length ys]"
    by (rule nth_equalityI) simp_all
  then show ?thesis by (rule arg_cong [where f = sum_list])
qed

lemma ss_tot_nonneg: "0 \<le> spec_ss_tot closes"
  unfolding spec_ss_tot_def by (rule sum_list_nonneg) auto

lemma strength_unfold:
  assumes "2 \<le> length ohlcv_data"
  shows "snd (calculate_trend ohlcv_data)
           = max 0 (min 1 (if 0 < spec_ss_tot (map close ohlcv_data)
                           then 1 - spec_ss_res (map close ohlcv_data)
                                      / spec_ss_tot (map close ohlcv_data)
                           else 0))"
proof -
  let ?cl = "map close ohlcv_data"
  let ?s = "polyfit_slope (arange (length ?cl)) ?cl"
  have res: "sum_list (map (\<lambda>(c, p). (c - p)\<^sup>2)
               (zip ?cl (map (\<lambda>xi. ?s * xi + np_mean ?cl) (arange (length ?cl)))))
             = spec_ss_res ?cl"
    unfolding spec_ss_res_def by (rule sum_list_zip_arange)
  have tot: "sum_list (map (\<lambda>c. (c - np_mean ?cl)\<^sup>2) ?cl) = spec_ss_tot ?cl"
    unfolding spec_ss_tot_def by (rule sum_list_map_nth)
  show ?thesis
    using assms unfolding calculate_trend_def Let_def res tot by simp
qed

text \<open>
  C2. For every candle list with at least 2 candles and nonzero total variance of the
  closes, the strength returned by \<open>calculate_trend\<close> is max(0, min(1, 1 - SS_res/SS_tot)),
  with SS_res measured against slope * x + mean(close) and SS_tot against mean(close).
\<close>

theorem strength_formula:
  assumes "2 \<le> length ohlcv_data" and "spec_ss_tot (map close ohlcv_data) \<noteq> 0"
  shows "snd (calculate_trend ohlcv_data) = spec_strength (map close ohlcv_data)"
proof -
  have "0 < spec_ss_tot (map close ohlcv_data)"
    using assms(2) ss_tot_nonneg [of "map close ohlcv_data"] by linarith
  then show ?thesis
    unfolding strength_unfold [OF assms(1)] spec_strength_def by simp
qed

theorem strength_formula_witness:
  "2 \<le> length [candle 1, candle 2, candle 4]
   \<and> spec_ss_tot (map close [candle 1, candle 2, candle 4]) \<noteq> 0
   \<and> snd (calculate_trend [candle 1, candle 2, candle 4])
       = spec_strength (map close [candle 1, candle 2, candle 4])"
proof -
  have n: "2 \<le> length [candle 1, candle 2, candle 4]" by simp
  have v: "spec_ss_tot (map close [candle 1, candle 2, candle 4]) \<noteq> 0"
    by (simp add: spec_ss_tot_def candle_def np_mean_def power2_eq_square)
  from strength_formula [OF n v] n v show ?thesis by blast
qed

section \<open>What the strength formula yields\<close>

lemma sum_index: "(\<Sum>i<n. real i) = real n * (real n - 1) / 2"
  by (induction n) (simp_all add: field_simps)

lemma sum_index_squares: "(\<Sum>i<n. real i * real i) = (real n - 1) * real n * (2 * real n - 1) / 6"
  by (induction n) (simp_all add: field_simps)

lemma arange_nth: "i < n \<Longrightarrow> arange n ! i = real i"
  by (simp add: arange_def)

lemma arange_sums:
  "sum_list (arange n) = real n * (real n - 1) / 2"
  "sum_list (map (\<lambda>xi. xi * xi) (arange n)) = (real n - 1) * real n * (2 * real n - 1) / 6"
proof -
  have l: "length (arange n) = n" by (simp add: arange_def)
  have "sum_list (arange n) = (\<Sum>i<n. real i)"
    using sum_list_map_nth_set [of "\<lambda>v. v" "arange n"] by (simp add: l arange_nth)
  then show "sum_list (arange n) = real n * (real n - 1) / 2" by (simp add: sum_index)
  have "sum_list (map (\<lambda>xi. xi * xi) (arange n)) = (\<Sum>i<n. real i * real i)"
    using sum_list_map_nth_set [of "\<lambda>xi. xi * xi" "arange n"] by (simp add: l arange_nth)
  then show "sum_list (map (\<lambda>xi. xi * xi) (arange n)) = (real n - 1) * real n * (2 * real n - 1) / 6"
    by (simp add: sum_index_squares)
qed

lemma arange_denominator:
  "real (length (arange n)) * sum_list (map (\<lambda>xi. xi * xi) (arange n))
     - sum_list (arange n) * sum_list (arange n)
   = (real n)\<^sup>2 * ((real n)\<^sup>2 - 1) / 12"
  unfolding arange_sums by (simp add: arange_def power2_eq_square field_simps)

lemma arange_denominator_pos:
  assumes "2 \<le> n"
  shows "0 < real (length (arange n)) * sum_list (map (\<lambda>xi. xi * xi) (arange n))
              - sum_list (arange n) * sum_list (arange n)"
proof -
  have "1 < real n" using assms by simp
  then have "1 * 1 < real n * real n" by (intro mult_strict_mono) simp_all
  then have "1 < (real n)\<^sup>2" by (simp add: power2_eq_square)
  moreover have "0 < (real n)\<^sup>2" using assms by simp
  ultimately show ?thesis unfolding arange_denominator by simp
qed


lemma sum_list_upt_set: "(\<Sum>i\<leftarrow>[0..<n]. f i) = (\<Sum>i<n. f i)"
  by (simp add: interv_sum_list_conv_sum_set_nat atLeast0LessThan)

text \<open>
  Measured against slope * x + mean(close), the residual sum of squares is never below
  the total sum of squares: the difference is slope * slope * n * (n - 1) * (n - 2) / 6.
\<close>

lemma residuals_exceed_total:
  fixes closes :: "real list"
  assumes "2 \<le> length closes"
  shows "spec_ss_tot closes \<le> spec_ss_res closes"
proof -
  let ?n = "length closes"
  define s where "s = polyfit_slope (arange ?n) closes"
  define m where "m = np_mean closes"
  define Sx where "Sx = (\<Sum>i<?n. real i)"
  define Sxx where "Sxx = (\<Sum>i<?n. real i * real i)"
  define Sy where "Sy = (\<Sum>i<?n. closes ! i)"
  define Sxy where "Sxy = (\<Sum>i<?n. real i * closes ! i)"
  define D where "D = real ?n * Sxx - Sx * Sx"
  have "0 < ?n" using assms by linarith
  then have n: "0 < real ?n" by (simp only: of_nat_0_less_iff)
  have la: "length (arange ?n) = ?n" by (simp add: arange_def)
  have sx: "sum_list (arange ?n) = Sx"
    using sum_list_map_nth_set [of "\<lambda>v. v" "arange ?n"] by (simp add: la arange_nth Sx_def)
  have sxx: "sum_list (map (\<lambda>xi. xi * xi) (arange ?n)) = Sxx"
    using sum_list_map_nth_set [of "\<lambda>xi. xi * xi" "arange ?n"]
    by (simp add: la arange_nth Sxx_def)
  have sy: "sum_list closes = Sy"
    using sum_list_map_nth_set [of "\<lambda>v. v" closes] by (simp add: Sy_def)
  have sxy: "sum_list (map (\<lambda>(xi, yi). xi * yi) (zip (arange ?n) closes)) = Sxy"
    using sum_list_map2_nth [of "arange ?n" closes "\<lambda>xi yi. xi * yi"]
    by (simp add: la arange_nth Sxy_def)
  have Dpos: "0 < D"
    using arange_denominator_pos [OF assms] by (simp add: D_def la sx sxx)
  have s_eq: "s * D = real ?n * Sxy - Sx * Sy"
    unfolding s_def polyfit_slope_def la sx sy sxx sxy D_def [symmetric] using Dpos by simp
  have m_eq: "real ?n * m = Sy"
    unfolding m_def np_mean_def sy using n by simp
  have key: "real ?n * (Sxy - m * Sx) = s * D"
  proof -
    have "real ?n * (Sxy - m * Sx) = real ?n * Sxy - (real ?n * m) * Sx"
      by (simp add: algebra_simps)
    then show ?thesis unfolding m_eq s_eq by (simp add: mult.commute)
  qed
  have res: "spec_ss_res closes = (\<Sum>i<?n. (closes ! i - (s * real i + m))\<^sup>2)"
    unfolding spec_ss_res_def s_def m_def by (rule sum_list_upt_set)
  have tot: "spec_ss_tot closes = (\<Sum>i<?n. (closes ! i - m)\<^sup>2)"
    unfolding spec_ss_tot_def m_def by (rule sum_list_upt_set)
  have "(\<Sum>i<?n. (closes ! i - (s * real i + m))\<^sup>2)
          = (\<Sum>i<?n. (closes ! i - m)\<^sup>2
                     + (s * s * (real i * real i)
                        - 2 * s * (real i * closes ! i - m * real i)))"
    by (rule sum.cong) (simp_all add: power2_eq_square algebra_simps)
  also have "\<dots> = (\<Sum>i<?n. (closes ! i - m)\<^sup>2) + (s * s * Sxx - 2 * s * (Sxy - m * Sx))"
    unfolding Sxx_def Sxy_def Sx_def
    by (simp add: sum.distrib sum_subtractf sum_distrib_left [symmetric])
  finally have diff: "spec_ss_res closes - spec_ss_tot closes
                        = s * s * Sxx - 2 * s * (Sxy - m * Sx)"
    unfolding res tot by simp
  have "real ?n * (spec_ss_res closes - spec_ss_tot closes)
          = s * s * (real ?n * Sxx) - 2 * s * (real ?n * (Sxy - m * Sx))"
    unfolding diff by (simp add: algebra_simps)
  also have "\<dots> = s * s * (2 * (Sx * Sx) - real ?n * Sxx)"
    unfolding key D_def by (simp add: algebra_simps)
  also have "2 * (Sx * Sx) - real ?n * Sxx
               = (real ?n)\<^sup>2 * (real ?n - 1) * (real ?n - 2) / 6"
    unfolding Sx_def Sxx_def sum_index sum_index_squares
    by (simp add: power2_eq_square field_simps)
  finally have scaled: "real ?n * (spec_ss_res closes - spec_ss_tot closes)
                          = s * s * ((real ?n)\<^sup>2 * (real ?n - 1) * (real ?n - 2) / 6)" .
  have "2 \<le> real ?n" using assms by simp
  then have "0 \<le> (real ?n)\<^sup>2 * (real ?n - 1) * (real ?n - 2) / 6" by simp
  then have "0 \<le> real ?n * (spec_ss_res closes - spec_ss_tot closes)"
    unfolding scaled by (rule mult_nonneg_nonneg [OF zero_le_square])
  then have "0 \<le> spec_ss_res closes - spec_ss_tot closes"
    using n by (simp add: zero_le_mult_iff)
  then show ?thesis by simp
qed

text \<open>In exact arithmetic the strength returned by \<open>calculate_trend\<close> is therefore 0.\<close>

lemma trend_strength_zero: "snd (calculate_trend ohlcv_data) = 0"
proof (cases "length ohlcv_data < 2")
  case True
  then show ?thesis by (simp add: calculate_trend_def)
next
  case False
  then have n: "2 \<le> length ohlcv_data" by simp
  then have "2 \<le> length (map close ohlcv_data)" by simp
  then have le: "spec_ss_tot (map close ohlcv_data) \<le> spec_ss_res (map close ohlcv_data)"
    by (rule residuals_exceed_total)
  show ?thesis
  proof (cases "0 < spec_ss_tot (map close ohlcv_data)")
    case True
    then have "1 \<le> spec_ss_res (map close ohlcv_data) / spec_ss_tot (map close ohlcv_data)"
      using le by simp
    then show ?thesis
      unfolding strength_unfold [OF n] using True by simp
  next
    case False
    then show ?thesis
      unfolding strength_unfold [OF n] by simp
  qed
qed

section \<open>Trend direction of rising closes\<close>

lemma arange_Suc: "arange (Suc n) = arange n @ [real n]"
  by (simp add: arange_def)

lemma length_arange: "length (arange n) = n"
  by (simp add: arange_def)

lemma sum_list_arange: "sum_list (arange n) = (\<Sum>i<n. real i)"
  by (induction n) (simp_all add: arange_def)

lemma sum_list_zip_arange_prod:
  "sum_list (map (\<lambda>(xi, yi). xi * yi) (zip (arange (length ys)) ys))
     = (\<Sum>i<length ys. real i * ys ! i)"
proof (induction ys rule: rev_induct)
  case Nil
  show ?case by (simp add: arange_def)
next
  case (snoc y ys)
  then show ?case by (simp add: arange_Suc length_arange nth_append)
qed

lemma sum_list_nth_lessThan: "sum_list ys = (\<Sum>i<length ys. ys ! i)"
  by (simp add: sum_list_sum_nth atLeast0LessThan)

text \<open>What a new last value, no smaller than the others, adds to the numerator.\<close>

lemma snoc_gain:
  fixes ys :: "real list"
  assumes "\<forall>e \<in> set ys. e \<le> y"
  shows "0 \<le> (\<Sum>i<length ys. real i * ys ! i) + real (length ys) * real (length ys) * y
               - (\<Sum>i<length ys. real i) * y - real (length ys) * (\<Sum>i<length ys. ys ! i)"
proof -
  let ?n = "length ys"
  have "(\<Sum>i<?n. (real ?n - real i) * (y - ys ! i))
          = (\<Sum>i<?n. real i * ys ! i) + real ?n * real ?n * y
               - (\<Sum>i<?n. real i) * y - real ?n * (\<Sum>i<?n. ys ! i)"
    by (simp add: algebra_simps sum.distrib sum_subtractf sum_distrib_left sum_distrib_right)
  moreover have "0 \<le> (\<Sum>i<?n. (real ?n - real i) * (y - ys ! i))"
  proof (rule sum_nonneg)
    fix i assume "i \<in> {..<?n}"
    then have "i < ?n" by simp
    then have "ys ! i \<le> y" using assms by simp
    moreover have "real i \<le> real ?n" using \<open>i < ?n\<close> by simp
    ultimately show "0 \<le> (real ?n - real i) * (y - ys ! i)" by simp
  qed
  ultimately show ?thesis by simp
qed

lemma fit_numerator_nonneg:
  "sorted ys \<Longrightarrow> 0 \<le> fit_numerator (arange (length ys)) ys"
proof (induction ys rule: rev_induct)
  case Nil
  show ?case by (simp add: fit_numerator_def arange_def)
next
  case (snoc y ys)
  let ?n = "length ys"
  from snoc.prems have s: "sorted ys" and le: "\<forall>e \<in> set ys. e \<le> y"
    by (auto simp: sorted_append)
  have ih: "0 \<le> real ?n * (\<Sum>i<?n. real i * ys ! i) - (\<Sum>i<?n. real i) * (\<Sum>i<?n. ys ! i)"
    using snoc.IH [OF s]
    by (simp add: fit_numerator_def length_arange sum_list_zip_arange_prod sum_list_arange
                  sum_list_nth_lessThan [symmetric])
  have eq: "fit_numerator (arange (length (ys @ [y]))) (ys @ [y])
          = (real ?n * (\<Sum>i<?n. real i * ys ! i) - (\<Sum>i<?n. real i) * (\<Sum>i<?n. ys ! i))
            + ((\<Sum>i<?n. real i * ys ! i) + real ?n * real ?n * y
               - (\<Sum>i<?n. real i) * y - real ?n * (\<Sum>i<?n. ys ! i))"
    by (simp add: fit_numerator_def arange_Suc length_arange sum_list_zip_arange_prod
                  sum_list_arange sum_list_nth_lessThan [symmetric] algebra_simps)
  show ?case unfolding eq using ih snoc_gain [OF le] by linarith
qed

lemma sorted_arange: "sorted (arange n)"
  by (induction n) (auto simp: arange_Suc sorted_append arange_def)

lemma polyfit_slope_nonneg:
  assumes "sorted ys"
  shows "0 \<le> polyfit_slope (arange (length ys)) ys"
proof -
  let ?x = "arange (length ys)"
  have n: "0 \<le> fit_numerator ?x ys" by (rule fit_numerator_nonneg [OF assms])
  have "0 \<le> fit_numerator (arange (length ?x)) ?x"
    by (rule fit_numerator_nonneg [OF sorted_arange])
  then have d: "0 \<le> real (length ?x) * sum_list (map (\<lambda>xi. xi * xi) ?x) - sum_list ?x * sum_list ?x"
    by (simp add: fit_numerator_def length_arange zip_same_conv_map comp_def)
  show ?thesis
    unfolding polyfit_slope_def using n d
    by (simp add: fit_numerator_def)
qed

text \<open>
  C1, as the specification states it: strictly increasing closes give bullish with
  strength exactly 1. A slow rise stays under the 0.1% threshold and is neutral, and
  the perfectly linear rise 1, 2, 3 is bullish with strength 0.
\<close>

theorem rising_closes_counterexample:
  "sorted_wrt (<) (map close [candle 100, candle 100.05, candle 100.1])
   \<and> calculate_trend [candle 100, candle 100.05, candle 100.1] = (Neutral, 0)
   \<and> sorted_wrt (<) (map close [candle 1, candle 2, candle 3])
   \<and> calculate_trend [candle 1, candle 2, candle 3] = (Bullish, 0)"
  by (simp add: calculate_trend_def candle_def arange_def polyfit_slope_def np_mean_def
                Let_def power2_eq_square)

text \<open>
  C1, amended: for every candle window of length at least 2 with strictly increasing
  closes, \<open>calculate_trend\<close> never returns bearish, and it returns bullish exactly when the
  mean close is positive and the least-squares slope divided by the mean close exceeds
  0.001. Nothing is stated about the strength.
\<close>

theorem rising_closes_trend:
  assumes "2 \<le> length ohlcv_data" and "sorted_wrt (<) (map close ohlcv_data)"
  shows "fst (calculate_trend ohlcv_data) \<noteq> Bearish
       \<and> (fst (calculate_trend ohlcv_data) = Bullish \<longleftrightarrow>
            0 < np_mean (map close ohlcv_data)
            \<and> 1 / 1000 < polyfit_slope (arange (length ohlcv_data)) (map close ohlcv_data)
                           / np_mean (map close ohlcv_data))"
proof -
  let ?cl = "map close ohlcv_data"
  let ?s = "polyfit_slope (arange (length ?cl)) ?cl"
  define ns where "ns = (if 0 < np_mean ?cl then ?s / np_mean ?cl else 0)"
  have "sorted ?cl" using assms(2) by (rule strict_sorted_imp_sorted)
  then have "0 \<le> ?s" by (rule polyfit_slope_nonneg)
  then have ns: "0 \<le> ns" by (simp add: ns_def)
  have dir: "fst (calculate_trend ohlcv_data)
               = (if 1 / 1000 < ns then Bullish else if ns < - (1 / 1000) then Bearish else Neutral)"
    using assms(1) unfolding calculate_trend_def Let_def ns_def by simp
  have a: "fst (calculate_trend ohlcv_data) \<noteq> Bearish"
    unfolding dir using ns by simp
  have b: "fst (calculate_trend ohlcv_data) = Bullish \<longleftrightarrow> 1 / 1000 < ns"
    unfolding dir using ns by simp
  have c: "1 / 1000 < ns \<longleftrightarrow> 0 < np_mean ?cl \<and> 1 / 1000 < ?s / np_mean ?cl"
    by (simp add: ns_def)
  show ?thesis using a b c by simp
qed

theorem rising_closes_trend_witness:
  "2 \<le> length [candle 1, candle 2, candle 4]
   \<and> sorted_wrt (<) (map close [candle 1, candle 2, candle 4])
   \<and> fst (calculate_trend [candle 1, candle 2, candle 4]) = Bullish"
proof -
  have n: "2 \<le> length [candle 1, candle 2, candle 4]" by simp
  have s: "sorted_wrt (<) (map close [candle 1, candle 2, candle 4])"
    by (simp add: candle_def)
  have m: "0 < np_mean (map close [candle 1, candle 2, candle 4])
           \<and> 1 / 1000 < polyfit_slope (arange (length [candle 1, candle 2, candle 4]))
                            (map close [candle 1, candle 2, candle 4])
                          / np_mean (map close [candle 1, candle 2, candle 4])"
    by (simp add: candle_def arange_def polyfit_slope_def np_mean_def)
  from rising_closes_trend [OF n s] n s m show ?thesis by blast
qed

section \<open>Clustering of swing levels\<close>

lemma spec_groups_nonempty: "xs \<noteq> [] \<Longrightarrow> spec_groups xs \<noteq> []"
  by (induction xs rule: spec_groups.induct) (auto split: list.splits)

lemma spec_groups_members_nonempty: "g \<in> set (spec_groups xs) \<Longrightarrow> g \<noteq> []"
  by (induction xs arbitrary: g rule: spec_groups.induct) (auto split: list.splits if_splits)

text \<open>
  Over a positive divisor the quotient the source tests is below 0.01 exactly when the
  distance is below one hundredth of the divisor's size.
\<close>

lemma within_one_percent:
  fixes l :: real
  assumes "0 < l"
  shows "(d / l < 1 / 100) = (\<not> 1 / 100 * \<bar>l\<bar> \<le> d)"
proof -
  have "(d / l < 1 / 100) = (d * 100 < l)" using assms by (simp add: field_simps)
  moreover have "(1 / 100 * \<bar>l\<bar> \<le> d) = (l \<le> d * 100)" using assms by simp
  ultimately show ?thesis by linarith
qed

text \<open>
  The loop, started inside a cluster, ends with the means of all groups but the last in
  \<open>clusters\<close> and the last group in \<open>current_cluster\<close>, provided every divisor is positive.
\<close>

lemma cluster_loop_groups:
  assumes "current \<noteq> []" and "\<forall>v \<in> set (butlast (last current # rest)). 0 < v"
  shows "cluster_loop rest clusters current
           = Inr (clusters @ map np_mean (butlast (merge_head current (spec_groups (last current # rest)))),
                  last (merge_head current (spec_groups (last current # rest))))"
  using assms
proof (induction rest arbitrary: clusters current)
  case Nil
  then show ?case by (simp add: merge_head_def)
next
  case (Cons level rest)
  let ?l = "last current"
  from Cons.prems have pos: "0 < ?l" and rest: "\<forall>v \<in> set (butlast (level # rest)). 0 < v"
    by auto
  from pos have nz: "?l \<noteq> 0" by simp
  note far = within_one_percent [OF pos, of "\<bar>level - ?l\<bar>"]
  obtain g gs where G: "spec_groups (level # rest) = g # gs"
    using spec_groups_nonempty [of "level # rest"] by (cases "spec_groups (level # rest)") auto
  show ?case
  proof (cases "\<bar>level - ?l\<bar> / ?l < 1 / 100")
    case True
    have ih: "cluster_loop rest clusters (current @ [level])
           = Inr (clusters @ map np_mean (butlast (merge_head (current @ [level]) (g # gs))),
                  last (merge_head (current @ [level]) (g # gs)))"
      using Cons.IH [of "current @ [level]" clusters] rest G by simp
    have sg: "spec_groups (?l # level # rest) = (?l # g) # gs"
      using True G far by simp
    have mh: "merge_head current ((?l # g) # gs) = merge_head (current @ [level]) (g # gs)"
      using Cons.prems(1) by (simp add: merge_head_def)
    have step: "cluster_loop (level # rest) clusters current
                  = cluster_loop rest clusters (current @ [level])"
      using True nz Cons.prems(1) by simp
    show ?thesis unfolding step ih sg mh ..
  next
    case False
    have ih: "cluster_loop rest (clusters @ [np_mean current]) [level]
           = Inr ((clusters @ [np_mean current]) @ map np_mean (butlast (merge_head [level] (g # gs))),
                  last (merge_head [level] (g # gs)))"
      using Cons.IH [of "[level]" "clusters @ [np_mean current]"] rest G by simp
    have sg: "spec_groups (?l # level # rest) = [?l] # g # gs"
      using False G far by simp
    have mh: "merge_head current ([?l] # g # gs) = current # g # gs"
      using Cons.prems(1) by (simp add: merge_head_def)
    have mh2: "merge_head [level] (g # gs) = g # gs"
      by (simp add: merge_head_def)
    have step: "cluster_loop (level # rest) clusters current
                  = cluster_loop rest (clusters @ [np_mean current]) [level]"
      using False nz Cons.prems(1) by simp
    show ?thesis unfolding step ih sg mh mh2 by simp
  qed
qed

lemma py_slice_to_nonneg: "0 \<le> k \<Longrightarrow> py_slice_to xs k = take (nat k) xs"
  by (simp add: py_slice_to_def)

text \<open>
  C7, as the specification states it, for every list of levels and every \<open>num_levels\<close>.
  With more levels than \<open>num_levels\<close>: a level 0 that is not the largest makes the division
  by the last member of the cluster raise; below a negative member the quotient is never
  as large as 0.01, so -3, -2, -1, which lie far more than 1% apart, fall into one
  cluster; and a negative \<open>num_levels\<close> cuts the means from the end instead of keeping none.
\<close>

theorem cluster_levels_counterexample:
  "cluster_levels [0, 1, 2, 3] 3 = Inl ZeroDivisionError
   \<and> cluster_levels [0, 1, 2, 3] 3 \<noteq> Inr (spec_cluster_levels [0, 1, 2, 3] 3)
   \<and> cluster_levels [- 3, - 2, - 1] 2 = Inr [- 2]
   \<and> spec_cluster_levels [- 3, - 2, - 1] 2 = [- 3, - 2]
   \<and> cluster_levels [1, 2, 3] (- 1) = Inr [1, 2]
   \<and> spec_cluster_levels [1, 2, 3] (- 1) = []"
  by (simp add: cluster_levels_def spec_cluster_levels_def np_mean_def py_slice_to_def)

text \<open>
  C7, amended: when the number of levels is at most \<open>num_levels\<close> they are returned sorted
  ascending and unclustered; otherwise, when \<open>num_levels\<close> is not negative and every level
  but the last of the sorted list is positive, the greedy clusters of the sorted list (a
  new cluster exactly when the next value differs from the last member by at least 1%
  relative to that member) collapse to their means and the \<open>num_levels\<close> lowest means
  are returned in ascending order. Nothing is stated for levels that are zero or negative.
\<close>

theorem cluster_levels_refines:
  assumes "int (length levels) \<le> num_levels
           \<or> (0 \<le> num_levels \<and> (\<forall>v \<in> set (butlast (sort levels)). 0 < v))"
  shows "cluster_levels levels num_levels = Inr (spec_cluster_levels levels num_levels)
       \<and> sorted (spec_cluster_levels levels num_levels)
       \<and> (int (length levels) \<le> num_levels
            \<longrightarrow> spec_cluster_levels levels num_levels = sort levels)
       \<and> (\<not> int (length levels) \<le> num_levels
            \<longrightarrow> spec_cluster_levels levels num_levels
                  = take (nat num_levels) (sort (map np_mean (spec_groups (sort levels)))))"
proof (cases "int (length levels) \<le> num_levels")
  case True
  have run: "cluster_levels levels num_levels = Inr (sort levels)"
  proof (cases "levels = []")
    case True
    then show ?thesis by (simp add: cluster_levels_def)
  next
    case False
    with \<open>int (length levels) \<le> num_levels\<close> show ?thesis
      by (simp add: cluster_levels_def Let_def)
  qed
  have sp: "spec_cluster_levels levels num_levels = sort levels"
    using True by (simp add: spec_cluster_levels_def)
  show ?thesis unfolding run sp using True by simp
next
  case big: False
  with assms have k: "0 \<le> num_levels" and nz: "\<forall>v \<in> set (butlast (sort levels)). 0 < v"
    by auto
  from big k have ne: "levels \<noteq> []" by auto
  then have "length (sort levels) \<noteq> 0" by simp
  then have sne: "sort levels \<noteq> []" by (simp only: length_0_conv not_False_eq_True)
  then obtain x xs where s: "sort levels = x # xs" by (cases "sort levels") auto
  obtain g gs where G: "spec_groups (x # xs) = g # gs"
    using spec_groups_nonempty [of "x # xs"] by (cases "spec_groups (x # xs)") auto
  have loop: "cluster_loop xs [] [x] = Inr (map np_mean (butlast (g # gs)), last (g # gs))"
    using cluster_loop_groups [of "[x]" xs "[]"] nz s G by (simp add: merge_head_def)
  have "last (g # gs) \<in> set (g # gs)" by (rule last_in_set) simp
  then have gne: "last (g # gs) \<noteq> []"
    using spec_groups_members_nonempty [of "last (g # gs)" "x # xs"] G by simp
  have "butlast (g # gs) @ [last (g # gs)] = g # gs"
    by (rule append_butlast_last_id) simp
  then have "map np_mean (butlast (g # gs) @ [last (g # gs)]) = map np_mean (g # gs)"
    by (rule arg_cong [where f = "map np_mean"])
  then have all: "map np_mean (butlast (g # gs)) @ [np_mean (last (g # gs))] = map np_mean (g # gs)"
    by (simp only: map_append list.map)
  have "length (sort levels) = length (x # xs)" by (simp only: s)
  then have len: "length levels = Suc (length xs)" by simp
  have big': "\<not> int (length (x # xs)) \<le> num_levels" using big len by simp
  have "cluster_levels levels num_levels
          = Inr (py_slice_to (sort (map np_mean (g # gs))) num_levels)"
    unfolding cluster_levels_def Let_def s using ne big' gne loop all
    by (simp del: butlast.simps last.simps list.map)
  then have run: "cluster_levels levels num_levels
          = Inr (take (nat num_levels) (sort (map np_mean (spec_groups (sort levels)))))"
    using k by (simp only: py_slice_to_nonneg s G)
  have sp: "spec_cluster_levels levels num_levels
          = take (nat num_levels) (sort (map np_mean (spec_groups (sort levels))))"
    using big by (simp add: spec_cluster_levels_def)
  have so: "sorted (take (nat num_levels) (sort (map np_mean (spec_groups (sort levels)))))"
    by (rule sorted_wrt_take) simp
  show ?thesis using big run sp so by simp
qed

theorem cluster_levels_refines_witness:
  "0 \<le> (2::int)
   \<and> butlast (sort [100, 100.5, 110, 120.3, 120 :: real]) = [100, 100.5, 110, 120]
   \<and> \<not> int (length [100, 100.5, 110, 120.3, 120 :: real]) \<le> 2
   \<and> spec_groups (sort [100, 100.5, 110, 120.3, 120]) = [[100, 100.5], [110], [120, 120.3]]
   \<and> cluster_levels [100, 100.5, 110, 120.3, 120] 2 = Inr [100.25, 110]"
proof -
  have b: "butlast (sort [100, 100.5, 110, 120.3, 120 :: real]) = [100, 100.5, 110, 120]"
    by simp
  have p: "\<forall>v \<in> set (butlast (sort [100, 100.5, 110, 120.3, 120 :: real])). 0 < v"
    unfolding b by simp
  have g: "spec_groups (sort [100, 100.5, 110, 120.3, 120]) = [[100, 100.5], [110], [120, 120.3]]"
    by simp
  have v: "spec_cluster_levels [100, 100.5, 110, 120.3, 120] 2 = [100.25, 110]"
    by (simp add: spec_cluster_levels_def np_mean_def)
  from cluster_levels_refines [of "[100, 100.5, 110, 120.3, 120]" 2] p b g v
  show ?thesis by simp
qed

end
